theory Spec2Isabelle
  imports Complex_Main
begin

section \<open>The tabbed code editor of \<^verbatim>\<open>ui/shared/monaco/CodeEditor.tsx\<close>\<close>

text \<open>
  The component keeps three pieces of React state that its handlers read (lines 42--44):
  the active \<open>index\<close> into the \<open>data\<close> array of files, the list \<open>tabs\<close> of open paths
  and the flag \<open>isMetaPressed\<close>; and one mutable cell, \<open>editorRef\<close> (line 46), empty
  until the editor widget has mounted. Every event handler is modelled as one transition
  on these four.
  A read of a property of \<open>undefined\<close> (\<open>data[i].file_path\<close> with \<open>i\<close> out of range) is
  the JavaScript \<open>TypeError\<close>; it is a value of the model.
\<close>

subsection \<open>Data\<close>

record File =
  file_path :: string
  source_code :: string

text \<open>
  The handle of the mounted editor widget; \<open>editorRef.current\<close> is \<open>undefined\<close> (here
  \<open>None\<close>) or such a handle.
\<close>

datatype editor = StandaloneCodeEditor

record state =
  index :: int
  tabs :: "string list"
  isMetaPressed :: bool
  editorRef :: "editor option"

datatype error = TypeError

text \<open>
  A JavaScript \<open>number\<close> as far as \<open>handleSelectFile\<close> looks at it: the handler only
  asks whether the value is \<open>NaN\<close>. The finite doubles are a subset of the reals.
\<close>

datatype js_number = Finite real | NaN | PosInfinity | NegInfinity

text \<open>
  What a handler asks of its collaborators. \<open>RevealLineInCenter n\<close> is the callback handed
  to \<open>window.setTimeout(_, 0)\<close> (lines 82--84), \<open>Focus\<close> a call of the editor's
  \<open>focus()\<close> (line 86) and \<open>StopPropagation\<close> the call on the click event (line 126).
\<close>

datatype effect = RevealLineInCenter js_number | Focus | StopPropagation

text \<open>The part of a \<open>React.MouseEvent\<close> that \<open>handleClick\<close> reads (lines 119--122).\<close>

record click_event =
  isImportLink :: bool
  innerText :: string

subsection \<open>Array primitives of JavaScript\<close>

text \<open>\<open>xs[i]\<close>: \<open>undefined\<close> (here \<open>None\<close>) outside \<open>0 .. length - 1\<close>.\<close>

definition elem_at :: "'a list \<Rightarrow> int \<Rightarrow> 'a option" where
  "elem_at xs i = (if 0 \<le> i \<and> i < int (length xs) then Some (xs ! nat i) else None)"

text \<open>\<open>xs.findIndex(P)\<close>: the first position whose element satisfies \<open>P\<close>, or \<open>-1\<close>.\<close>

fun findIndex_from :: "('a \<Rightarrow> bool) \<Rightarrow> 'a list \<Rightarrow> int \<Rightarrow> int" where
  "findIndex_from P [] k = - 1"
| "findIndex_from P (x # xs) k = (if P x then k else findIndex_from P xs (k + 1))"

definition findIndex :: "('a \<Rightarrow> bool) \<Rightarrow> 'a list \<Rightarrow> int" where
  "findIndex P xs = findIndex_from P xs 0"

subsection \<open>Mount and the event handlers\<close>

text \<open>
  Lines 42--46: \<open>useState(0)\<close>, \<open>useState([ data[index].file_path ])\<close>,
  \<open>useState(false)\<close>, \<open>useRef()\<close>.
\<close>

definition initial :: "File list \<Rightarrow> error + state" where
  "initial data =
     (case elem_at data 0 of
        None \<Rightarrow> Inl TypeError
      | Some f \<Rightarrow>
          Inr \<lparr>index = 0, tabs = [file_path f], isMetaPressed = False, editorRef = None\<rparr>)"

text \<open>
  Lines 59--76, the widget's \<open>onMount\<close>: \<open>editorRef.current = editor\<close>. The rest of the
  callback (\<open>setInstance\<close>, themes, models, decorations) goes to the widget and to the
  side bar and is read by no handler below.
\<close>

definition handleEditorDidMount :: "editor \<Rightarrow> state \<Rightarrow> state" where
  "handleEditorDidMount ed s = s\<lparr>editorRef := Some ed\<rparr>"

text \<open>
  Lines 78--87. The handler queues two state updates and then talks to the editor, so its
  result has two parts: the effects it asked for, and the state after the queued updates
  are applied. The updater of \<open>setTabs\<close> reads \<open>data[index].file_path\<close> whichever way
  it goes (in the callback of \<open>some\<close> when \<open>prev\<close> has an element, in the array literal
  when \<open>some\<close> answers false), so an \<open>index\<close> outside \<open>data\<close> is a \<open>TypeError\<close> of the
  update. The timer is set whether or not the editor has mounted (its callback looks at
  \<open>editorRef.current\<close> only when it fires); \<open>editorRef.current?.focus()\<close> of line 86
  calls \<open>focus()\<close> only when the cell holds an editor.
\<close>

definition handleSelectFile ::
  "File list \<Rightarrow> int \<Rightarrow> js_number option \<Rightarrow> state \<Rightarrow> effect list \<times> (error + state)" where
  "handleSelectFile data idx lineNumber s =
     ((if lineNumber \<noteq> None \<and> lineNumber \<noteq> Some NaN
       then [RevealLineInCenter (the lineNumber)] else []) @
      (if editorRef s \<noteq> None then [Focus] else []),
      (case elem_at data idx of
         None \<Rightarrow> Inl TypeError
       | Some f \<Rightarrow>
           Inr (s\<lparr>index := idx,
                  tabs := (if list_ex (\<lambda>item. item = file_path f) (tabs s)
                           then tabs s else tabs s @ [file_path f])\<rparr>)))"

text \<open>Lines 89--94.\<close>

definition handleTabSelect :: "File list \<Rightarrow> string \<Rightarrow> state \<Rightarrow> state" where
  "handleTabSelect data path s =
     (let i = findIndex (\<lambda>item. file_path item = path) data
      in if i > - 1 then s\<lparr>index := i\<rparr> else s)"

text \<open>
  Lines 96--112. \<open>index\<close> is the active index of the state the callback was made for;
  \<open>prev[k]\<close> is compared with \<open>===\<close>, and no string equals \<open>undefined\<close>.
\<close>

definition handleTabClose :: "File list \<Rightarrow> string \<Rightarrow> state \<Rightarrow> error + state" where
  "handleTabClose data path s =
     (let prev = tabs s in
      if length prev > 1 then
        (let tabIndex = findIndex (\<lambda>item. item = path) prev in
         case elem_at data (index s) of
           None \<Rightarrow> Inl TypeError
         | Some f \<Rightarrow>
             (let isActive = (file_path f = path);
                  s1 = (if isActive
                        then s\<lparr>index :=
                               findIndex (\<lambda>item. Some (file_path item) =
                                            elem_at prev (max 0 (tabIndex - 1))) data\<rparr>
                        else s)
              in Inr (s1\<lparr>tabs := filter (\<lambda>item. item \<noteq> path) prev\<rparr>)))
      else Inr s)"

text \<open>
  Lines 114--130. \<open>getFullPathOfImportedFile\<close> lives in
  \<^verbatim>\<open>utils/getFullPathOfImportedFile\<close>, outside this file, so it is a parameter; a result
  that is not a string (\<open>undefined\<close>) is \<open>None\<close>. \<open>isMobile\<close> is what the hook
  \<open>useIsMobile\<close> returned for the render the click happens in.
\<close>

definition handleClick ::
  "(string \<Rightarrow> string \<Rightarrow> string option) \<Rightarrow> bool \<Rightarrow> File list \<Rightarrow> click_event \<Rightarrow> state
     \<Rightarrow> effect list \<times> (error + state)" where
  "handleClick getFullPathOfImportedFile isMobile data event s =
     (if \<not> isMetaPressed s \<and> \<not> isMobile then ([], Inr s)
      else if isImportLink event then
        (case elem_at data (index s) of
           None \<Rightarrow> ([], Inl TypeError)
         | Some f \<Rightarrow>
             (let fullPath = getFullPathOfImportedFile (file_path f) (innerText event);
                  fileIndex = findIndex (\<lambda>file. Some (file_path file) = fullPath) data
              in if fileIndex > - 1
                 then (StopPropagation # fst (handleSelectFile data fileIndex None s),
                       snd (handleSelectFile data fileIndex None s))
                 else ([], Inr s)))
      else ([], Inr s))"

text \<open>
  Lines 132--138. \<open>isMetaKey(event)\<close> is imported from \<^verbatim>\<open>lib/isMetaKey\<close>; its answer is
  the argument \<open>metaKey\<close>.
\<close>

definition handleKeyDown :: "bool \<Rightarrow> state \<Rightarrow> state" where
  "handleKeyDown metaKey s = (if metaKey then s\<lparr>isMetaPressed := True\<rparr> else s)"

definition handleKeyUp :: "state \<Rightarrow> state" where
  "handleKeyUp s = s\<lparr>isMetaPressed := False\<rparr>"

subsection \<open>Runs of the component\<close>

text \<open>
  Lines 160--205, the render: both returns read \<open>data[index].file_path\<close> (line 165,
  line 190), so a state whose index is outside \<open>data\<close> throws there.
\<close>

definition render :: "File list \<Rightarrow> state \<Rightarrow> error + state" where
  "render data s = (case elem_at data (index s) of None \<Rightarrow> Inl TypeError | Some f \<Rightarrow> Inr s)"

text \<open>
  The events the rendered tree can deliver: the side bar's \<open>onFileSelect\<close>, the tab bar's
  \<open>onTabSelect\<close> and \<open>onTabClose\<close>, the container's \<open>onClick\<close>, \<open>onKeyDown\<close> and
  \<open>onKeyUp\<close>, and the editor's \<open>onMount\<close> (lines 185--203). \<open>dispatch\<close> is the handler
  of an event; \<open>step\<close> is one turn of the component: the tree that delivers the event
  has rendered, the handler runs, and the new state is rendered.
\<close>

datatype event =
    SelectFile int "js_number option"
  | SelectTab string
  | CloseTab string
  | Click bool click_event
  | KeyDown bool
  | KeyUp
  | EditorDidMount editor

fun dispatch ::
  "(string \<Rightarrow> string \<Rightarrow> string option) \<Rightarrow> File list \<Rightarrow> event \<Rightarrow> state \<Rightarrow> error + state" where
  "dispatch g data (SelectFile idx lineNumber) s = snd (handleSelectFile data idx lineNumber s)"
| "dispatch g data (SelectTab path) s = Inr (handleTabSelect data path s)"
| "dispatch g data (CloseTab path) s = handleTabClose data path s"
| "dispatch g data (Click isMobile ev) s = snd (handleClick g isMobile data ev s)"
| "dispatch g data (KeyDown metaKey) s = Inr (handleKeyDown metaKey s)"
| "dispatch g data KeyUp s = Inr (handleKeyUp s)"
| "dispatch g data (EditorDidMount ed) s = Inr (handleEditorDidMount ed s)"

definition step ::
  "(string \<Rightarrow> string \<Rightarrow> string option) \<Rightarrow> File list \<Rightarrow> event \<Rightarrow> state \<Rightarrow> error + state" where
  "step g data e s =
     (case render data s of
        Inl err \<Rightarrow> Inl err
      | Inr _ \<Rightarrow>
          (case dispatch g data e s of
             Inl err \<Rightarrow> Inl err
           | Inr s' \<Rightarrow> render data s'))"

text \<open>A run stops at the first error, as the component does when a render throws.\<close>

fun run_from ::
  "(string \<Rightarrow> string \<Rightarrow> string option) \<Rightarrow> File list \<Rightarrow> event list \<Rightarrow> state \<Rightarrow> error + state" where
  "run_from g data [] s = Inr s"
| "run_from g data (e # es) s =
     (case step g data e s of Inl err \<Rightarrow> Inl err | Inr s' \<Rightarrow> run_from g data es s')"

definition run ::
  "(string \<Rightarrow> string \<Rightarrow> string option) \<Rightarrow> File list \<Rightarrow> event list \<Rightarrow> error + state" where
  "run g data es = (case initial data of Inl err \<Rightarrow> Inl err | Inr s \<Rightarrow> run_from g data es s)"

text \<open>
  The invariant of the data model: the active index points into \<open>data\<close>, the tab
  sequence is not empty, holds no path twice and holds only paths of \<open>data\<close>.
\<close>

definition wf_state :: "File list \<Rightarrow> state \<Rightarrow> bool" where
  "wf_state data s \<longleftrightarrow>
     0 \<le> index s \<and> index s < int (length data) \<and>
     tabs s \<noteq> [] \<and> distinct (tabs s) \<and>
     list_all (\<lambda>p. list_ex (\<lambda>f. file_path f = p) data) (tabs s)"

text \<open>
  The tabs that are open both before and after stand in the same order before and after.
\<close>

definition same_order :: "string list \<Rightarrow> string list \<Rightarrow> bool" where
  "same_order old new \<longleftrightarrow>
     filter (\<lambda>p. p \<in> set new) old = filter (\<lambda>p. p \<in> set old) new"

text \<open>A finite number, as \<open>Number.isFinite\<close> decides it.\<close>

definition finite_number :: "js_number option \<Rightarrow> bool" where
  "finite_number lineNumber =
     (case lineNumber of Some (Finite r) \<Rightarrow> True | _ \<Rightarrow> False)"

text \<open>
  The three files of the specification's scenario; the concrete runs below are over them.
\<close>

definition scenario_files :: "File list" where
  "scenario_files =
     [\<lparr>file_path = ''A.sol'', source_code = ''''\<rparr>,
      \<lparr>file_path = ''B.sol'', source_code = ''''\<rparr>,
      \<lparr>file_path = ''C.sol'', source_code = ''''\<rparr>]"

section \<open>Facts about the array primitives\<close>

lemma elem_at_Some_iff:
  "elem_at xs i = Some x \<longleftrightarrow> 0 \<le> i \<and> i < int (length xs) \<and> xs ! nat i = x"
  by (auto simp: elem_at_def)

lemma elem_at_None_iff: "elem_at xs i = None \<longleftrightarrow> i < 0 \<or> int (length xs) \<le> i"
  by (auto simp: elem_at_def)

lemma elem_at_nat: "n < length xs \<Longrightarrow> elem_at xs (int n) = Some (xs ! n)"
  by (simp add: elem_at_def)

lemma findIndex_from_none:
  "\<not> list_ex P xs \<Longrightarrow> findIndex_from P xs k = - 1"
  by (induction xs arbitrary: k) auto

lemma findIndex_from_some:
  "list_ex P xs \<Longrightarrow>
     k \<le> findIndex_from P xs k \<and> findIndex_from P xs k < k + int (length xs) \<and>
     P (xs ! nat (findIndex_from P xs k - k))"
proof (induction xs arbitrary: k)
  case Nil
  then show ?case by simp
next
  case (Cons x xs)
  show ?case
  proof (cases "P x")
    case True
    then show ?thesis by simp
  next
    case False
    with Cons.prems have ex: "list_ex P xs" by simp
    from Cons.IH [OF ex, of "k + 1"]
    have a: "k + 1 \<le> findIndex_from P xs (k + 1)"
      and b: "findIndex_from P xs (k + 1) < k + 1 + int (length xs)"
      and c: "P (xs ! nat (findIndex_from P xs (k + 1) - (k + 1)))"
      by simp_all
    have "nat (findIndex_from P xs (k + 1) - k) = Suc (nat (findIndex_from P xs (k + 1) - (k + 1)))"
      using a by linarith
    with a b c False show ?thesis by simp
  qed
qed

lemma findIndex_none: "\<not> list_ex P xs \<Longrightarrow> findIndex P xs = - 1"
  by (simp add: findIndex_def findIndex_from_none)

lemma findIndex_some:
  assumes "list_ex P xs"
  shows "0 \<le> findIndex P xs" and "findIndex P xs < int (length xs)"
    and "P (xs ! nat (findIndex P xs))"
  using findIndex_from_some [OF assms, of 0] by (simp_all add: findIndex_def)

lemma findIndex_found_iff: "findIndex P xs > - 1 \<longleftrightarrow> list_ex P xs"
proof (cases "list_ex P xs")
  case True
  then show ?thesis using findIndex_some(1) [OF True] by simp
next
  case False
  then show ?thesis by (simp add: findIndex_none)
qed

lemma findIndex_elem_at:
  assumes "list_ex P xs"
  obtains x where "elem_at xs (findIndex P xs) = Some x" and "P x"
  using findIndex_some [OF assms] by (simp add: elem_at_def)

lemma findIndex_from_distinct:
  "distinct xs \<Longrightarrow> p < length xs \<Longrightarrow>
     findIndex_from (\<lambda>item. item = xs ! p) xs k = k + int p"
proof (induction xs arbitrary: k p)
  case Nil
  then show ?case by simp
next
  case (Cons x xs)
  show ?case
  proof (cases p)
    case 0
    then show ?thesis by simp
  next
    case (Suc q)
    with Cons.prems have q: "q < length xs" and d: "distinct xs" and "xs ! q \<noteq> x"
      by auto
    with Cons.IH [OF d q, of "k + 1"] Suc show ?thesis by auto
  qed
qed

lemma findIndex_distinct:
  "distinct xs \<Longrightarrow> p < length xs \<Longrightarrow> findIndex (\<lambda>item. item = xs ! p) xs = int p"
  by (simp add: findIndex_def findIndex_from_distinct)

lemma findIndex_bounds: "- 1 \<le> findIndex P xs \<and> findIndex P xs < int (length xs)"
proof (cases "list_ex P xs")
  case True
  then show ?thesis using findIndex_some(1,2) [OF True] by simp
next
  case False
  then show ?thesis by (simp add: findIndex_none)
qed

section \<open>The invariant is kept by every handler\<close>

lemma wf_state_initial: "initial data = Inr s \<Longrightarrow> wf_state data s"
  by (cases data) (auto simp: initial_def elem_at_def wf_state_def)

lemma wf_state_selectFile:
  assumes "wf_state data s" and "snd (handleSelectFile data idx lineNumber s) = Inr s'"
  shows "wf_state data s'"
proof -
  from assms(2) obtain f where f: "elem_at data idx = Some f"
    and s': "s' = s\<lparr>index := idx,
                    tabs := (if list_ex (\<lambda>item. item = file_path f) (tabs s)
                             then tabs s else tabs s @ [file_path f])\<rparr>"
    by (auto simp: handleSelectFile_def split: option.splits)
  from f have idx: "0 \<le> idx" "idx < int (length data)" and fd: "f \<in> set data"
    by (auto simp: elem_at_def split: if_splits)
  from fd have "list_ex (\<lambda>g. file_path g = file_path f) data"
    by (auto simp: list_ex_iff)
  with assms(1) idx show ?thesis
    unfolding s' wf_state_def by (auto simp: list_ex_iff list_all_iff)
qed

lemma wf_state_tabSelect:
  assumes "wf_state data s"
  shows "wf_state data (handleTabSelect data path s)"
proof (cases "list_ex (\<lambda>item. file_path item = path) data")
  case True
  from findIndex_some(1,2) [OF True] assms show ?thesis
    by (simp add: handleTabSelect_def Let_def wf_state_def)
next
  case False
  then show ?thesis using assms
    by (simp add: handleTabSelect_def Let_def findIndex_none)
qed

text \<open>Two or more distinct tabs: one of them survives the removal of any one path.\<close>

lemma filter_neq_nonempty:
  assumes "distinct xs" and "1 < length xs"
  shows "filter (\<lambda>item. item \<noteq> path) xs \<noteq> []"
proof -
  from assms obtain a b ys where xs: "xs = a # b # ys"
    by (cases xs; cases "tl xs") auto
  with assms(1) have "a \<noteq> b" by simp
  then have "a \<noteq> path \<or> b \<noteq> path" by auto
  then show ?thesis unfolding xs by auto
qed

text \<open>The position \<open>Math.max(0, tabIndex - 1)\<close> lies inside a tab sequence of two or more.\<close>

lemma replacement_position:
  fixes path :: string
  assumes "1 < length prev" and "k = max 0 (findIndex (\<lambda>item. item = path) prev - 1)"
  shows "elem_at prev k = Some (prev ! nat k)" and "nat k < length prev"
proof -
  from findIndex_bounds [of "\<lambda>item. item = path" prev] assms
  have "0 \<le> k \<and> k < int (length prev)" by linarith
  then show "elem_at prev k = Some (prev ! nat k)" and "nat k < length prev"
    by (auto simp: elem_at_def)
qed

lemma replacement_found:
  assumes "wf_state data s" and "1 < length (tabs s)"
  shows "list_ex (\<lambda>item. Some (file_path item) =
           elem_at (tabs s) (max 0 (findIndex (\<lambda>item. item = path) (tabs s) - 1))) data"
proof -
  let ?k = "max 0 (findIndex (\<lambda>item. item = path) (tabs s) - 1)"
  from replacement_position [OF assms(2) refl, of path]
  have e: "elem_at (tabs s) ?k = Some (tabs s ! nat ?k)" and n: "nat ?k < length (tabs s)"
    by simp_all
  from n have "tabs s ! nat ?k \<in> set (tabs s)" by simp
  with assms(1) obtain f where "f \<in> set data" "file_path f = tabs s ! nat ?k"
    by (auto simp: wf_state_def list_all_iff list_ex_iff)
  with e show ?thesis by (auto simp: list_ex_iff)
qed

lemma handleTabClose_total:
  assumes "wf_state data s"
  shows "\<exists>s'. handleTabClose data path s = Inr s'"
proof -
  from assms obtain f where "elem_at data (index s) = Some f"
    by (auto simp: wf_state_def elem_at_def)
  then show ?thesis by (simp add: handleTabClose_def Let_def)
qed

lemma wf_state_tabClose:
  assumes wf: "wf_state data s" and c: "handleTabClose data path s = Inr s'"
  shows "wf_state data s'"
proof (cases "1 < length (tabs s)")
  case False
  with c have "s' = s" by (simp add: handleTabClose_def Let_def)
  with wf show ?thesis by simp
next
  case True
  let ?Q = "\<lambda>item. Some (file_path item) =
              elem_at (tabs s) (max 0 (findIndex (\<lambda>item. item = path) (tabs s) - 1))"
  from wf obtain f where f: "elem_at data (index s) = Some f"
    by (auto simp: wf_state_def elem_at_def)
  from c True f have t: "tabs s' = filter (\<lambda>item. item \<noteq> path) (tabs s)"
    and i: "index s' = (if file_path f = path then findIndex ?Q data else index s)"
    by (auto simp: handleTabClose_def Let_def split: if_splits)
  from wf have d: "distinct (tabs s)" by (simp add: wf_state_def)
  have ne: "tabs s' \<noteq> []" unfolding t by (rule filter_neq_nonempty [OF d True])
  from findIndex_some(1,2) [OF replacement_found [OF wf True, of path]]
  have "0 \<le> findIndex ?Q data" "findIndex ?Q data < int (length data)" .
  with wf i have "0 \<le> index s'" "index s' < int (length data)"
    by (auto simp: wf_state_def)
  moreover from wf have "distinct (tabs s')"
    and "list_all (\<lambda>p. list_ex (\<lambda>f. file_path f = p) data) (tabs s')"
    unfolding t by (auto simp: wf_state_def list_all_iff)
  ultimately show ?thesis using ne by (simp add: wf_state_def)
qed

lemma handleClick_cases:
  "snd (handleClick g isMobile data ev s) = Inr s \<or>
   snd (handleClick g isMobile data ev s) = Inl TypeError \<or>
   (\<exists>i. snd (handleClick g isMobile data ev s) = snd (handleSelectFile data i None s))"
  by (auto simp: handleClick_def Let_def split: option.splits)

lemma wf_state_click:
  assumes "wf_state data s" and "snd (handleClick g isMobile data ev s) = Inr s'"
  shows "wf_state data s'"
  using handleClick_cases [of g isMobile data ev s] assms wf_state_selectFile
  by (metis Inr_inject sum.distinct(1))

lemma wf_state_dispatch:
  assumes "wf_state data s" and "dispatch g data e s = Inr s'"
  shows "wf_state data s'"
proof (cases e)
  case (SelectFile idx lineNumber)
  with assms show ?thesis by (auto intro: wf_state_selectFile)
next
  case (SelectTab path)
  with assms show ?thesis by (auto intro: wf_state_tabSelect)
next
  case (CloseTab path)
  with assms show ?thesis by (auto intro: wf_state_tabClose)
next
  case (Click isMobile ev)
  with assms show ?thesis by (auto intro: wf_state_click)
next
  case (KeyDown metaKey)
  with assms show ?thesis by (auto simp: handleKeyDown_def wf_state_def split: if_splits)
next
  case KeyUp
  with assms show ?thesis by (auto simp: handleKeyUp_def wf_state_def)
next
  case (EditorDidMount ed)
  with assms show ?thesis by (auto simp: handleEditorDidMount_def wf_state_def)
qed

lemma step_Inr: "step g data e s = Inr s' \<Longrightarrow> dispatch g data e s = Inr s'"
  by (auto simp: step_def render_def split: sum.splits option.splits)

lemma render_wf: "wf_state data s \<Longrightarrow> render data s = Inr s"
  by (simp add: render_def elem_at_def wf_state_def)

text \<open>On a state of the data model the two renders of a step never throw.\<close>

lemma step_wf: "wf_state data s \<Longrightarrow> step g data e s = dispatch g data e s"
  by (cases "dispatch g data e s")
    (simp_all add: step_def render_wf wf_state_dispatch)

lemma wf_state_step:
  assumes "wf_state data s" and "step g data e s = Inr s'"
  shows "wf_state data s'"
  using assms(1) step_Inr [OF assms(2)] by (rule wf_state_dispatch)

lemma wf_state_run_from:
  "wf_state data s \<Longrightarrow> run_from g data es s = Inr s' \<Longrightarrow> wf_state data s'"
proof (induction es arbitrary: s)
  case Nil
  then show ?case by simp
next
  case (Cons e es)
  from Cons.prems(2) obtain s1 where s1: "step g data e s = Inr s1"
    and r: "run_from g data es s1 = Inr s'"
    by (auto split: sum.splits)
  from wf_state_step [OF Cons.prems(1) s1] r show ?case by (rule Cons.IH)
qed

lemma wf_state_run: "run g data es = Inr s \<Longrightarrow> wf_state data s"
  by (auto simp: run_def split: sum.splits intro: wf_state_run_from wf_state_initial)

subsection \<open>The order of the tabs\<close>

lemma same_order_refl: "same_order xs xs"
  by (simp add: same_order_def)

lemma same_order_append: "p \<notin> set xs \<Longrightarrow> same_order xs (xs @ [p])"
  by (simp add: same_order_def)

lemma same_order_filter: "same_order xs (filter Q xs)"
proof -
  have "filter (\<lambda>p. p \<in> set (filter Q xs)) xs = filter Q xs"
    by (rule filter_cong) auto
  moreover have "filter (\<lambda>p. p \<in> set xs) (filter Q xs) = filter Q xs"
    by (rule filter_True) auto
  ultimately show ?thesis by (simp add: same_order_def)
qed

lemma same_order_selectFile:
  "snd (handleSelectFile data idx lineNumber s) = Inr s' \<Longrightarrow> same_order (tabs s) (tabs s')"
  by (auto simp: handleSelectFile_def list_ex_iff same_order_refl same_order_append
      split: option.splits)

lemma same_order_tabSelect: "same_order (tabs s) (tabs (handleTabSelect data path s))"
  by (simp add: handleTabSelect_def Let_def same_order_refl)

lemma same_order_tabClose:
  "handleTabClose data path s = Inr s' \<Longrightarrow> same_order (tabs s) (tabs s')"
  by (auto simp: handleTabClose_def Let_def same_order_refl same_order_filter
      split: option.splits if_splits)

lemma same_order_click:
  assumes "snd (handleClick g isMobile data ev s) = Inr s'"
  shows "same_order (tabs s) (tabs s')"
  using handleClick_cases [of g isMobile data ev s] assms same_order_selectFile same_order_refl
  by (metis Inr_inject sum.distinct(1))

lemma same_order_dispatch:
  assumes "dispatch g data e s = Inr s'"
  shows "same_order (tabs s) (tabs s')"
proof (cases e)
  case (SelectFile idx lineNumber)
  with assms show ?thesis by (auto intro: same_order_selectFile)
next
  case (SelectTab path)
  with assms show ?thesis by (auto simp: same_order_tabSelect)
next
  case (CloseTab path)
  with assms show ?thesis by (auto intro: same_order_tabClose)
next
  case (Click isMobile ev)
  with assms show ?thesis by (auto intro: same_order_click)
next
  case (KeyDown metaKey)
  with assms show ?thesis by (auto simp: handleKeyDown_def same_order_refl)
next
  case KeyUp
  with assms show ?thesis by (auto simp: handleKeyUp_def same_order_refl)
next
  case (EditorDidMount ed)
  with assms show ?thesis by (auto simp: handleEditorDidMount_def same_order_refl)
qed

lemma same_order_step:
  assumes "step g data e s = Inr s'"
  shows "same_order (tabs s) (tabs s')"
  using step_Inr [OF assms] by (rule same_order_dispatch)

lemma filter_neq_nth:
  assumes "distinct xs" and "p < length xs"
  shows "filter (\<lambda>item. item \<noteq> xs ! p) xs = take p xs @ drop (Suc p) xs"
proof -
  have xs: "xs = take p xs @ xs ! p # drop (Suc p) xs"
    using assms(2) by (rule id_take_nth_drop)
  with assms(1) have d: "distinct (take p xs @ xs ! p # drop (Suc p) xs)" by simp
  then have a: "xs ! p \<notin> set (take p xs)" and b: "xs ! p \<notin> set (drop (Suc p) xs)"
    by auto
  have "filter (\<lambda>item. item \<noteq> xs ! p) (take p xs) = take p xs"
    using a by (intro filter_True) auto
  moreover have "filter (\<lambda>item. item \<noteq> xs ! p) (drop (Suc p) xs) = drop (Suc p) xs"
    using b by (intro filter_True) auto
  ultimately have "filter (\<lambda>item. item \<noteq> xs ! p) (take p xs @ xs ! p # drop (Suc p) xs)
          = take p xs @ drop (Suc p) xs"
    by simp
  with xs show ?thesis by simp
qed

section \<open>Closing the active tab\<close>

text \<open>
  What \<open>handleTabClose\<close> does to a well-formed state with two or more tabs when the path
  it is given is the active file's: the next active index is looked up from the tab at
  \<open>Math.max(0, tabIndex - 1)\<close> of the sequence \<^emph>\<open>before\<close> the removal.
\<close>

lemma handleTabClose_active:
  assumes "1 < length (tabs s)" and "elem_at data (index s) = Some f" and "file_path f = path"
    and "elem_at (tabs s) (max 0 (findIndex (\<lambda>item. item = path) (tabs s) - 1)) = Some q"
  shows "handleTabClose data path s =
           Inr (s\<lparr>index := findIndex (\<lambda>item. file_path item = q) data,
                  tabs := filter (\<lambda>item. item \<noteq> path) (tabs s)\<rparr>)"
  using assms by (simp add: handleTabClose_def Let_def)

text \<open>
  With the active tab first (\<open>tabIndex = 0\<close>) that position is \<open>0\<close> again, the closed tab
  itself: the index is looked up from the path that is being closed, so the closed file
  stays the active one.
\<close>

lemma handleTabClose_active_first:
  assumes "wf_state data s" and "1 < length (tabs s)"
    and "elem_at data (index s) = Some f" and "file_path f = path" and "tabs s ! 0 = path"
  shows "handleTabClose data path s =
           Inr (s\<lparr>index := findIndex (\<lambda>item. file_path item = path) data,
                  tabs := tl (tabs s)\<rparr>)"
proof -
  from assms(1) have d: "distinct (tabs s)" by (simp add: wf_state_def)
  from assms(2) have p: "0 < length (tabs s)" by linarith
  have ti: "findIndex (\<lambda>item. item = path) (tabs s) = 0"
    using findIndex_distinct [OF d p] assms(5) by simp
  have e: "elem_at (tabs s) (max 0 (findIndex (\<lambda>item. item = path) (tabs s) - 1)) = Some path"
    using p assms(5) by (simp add: ti elem_at_def)
  have "filter (\<lambda>item. item \<noteq> path) (tabs s) = take 0 (tabs s) @ drop (Suc 0) (tabs s)"
    using filter_neq_nth [OF d p] assms(5) by simp
  then have t: "filter (\<lambda>item. item \<noteq> path) (tabs s) = tl (tabs s)"
    by (simp add: drop_Suc)
  from handleTabClose_active [OF assms(2,3,4) e] t show ?thesis by simp
qed

text \<open>
  Claim C1. In a tab sequence of two or more whose first tab is the active one, closing
  the active tab is said to make the file of the old second tab (the new first tab) the
  active file. The run below reaches the tabs \<open>[A.sol, B.sol]\<close> with \<open>A.sol\<close> (index
  \<open>0\<close>) active by opening \<open>B.sol\<close> from the side bar and selecting the tab \<open>A.sol\<close>.
  Closing \<open>A.sol\<close> there leaves the tabs \<open>[B.sol]\<close>, and the active index is still
  \<open>0\<close>, the file \<open>A.sol\<close> that has just been closed, not \<open>B.sol\<close>.
\<close>

theorem closeTab_active_first_keeps_closed_file:
  "run (\<lambda>base text. None) scenario_files [SelectFile 1 None, SelectTab ''A.sol'']
     = Inr \<lparr>index = 0, tabs = [''A.sol'', ''B.sol''], isMetaPressed = False, editorRef = None\<rparr> \<and>
   handleTabClose scenario_files ''A.sol''
       \<lparr>index = 0, tabs = [''A.sol'', ''B.sol''], isMetaPressed = False, editorRef = None\<rparr>
     = Inr \<lparr>index = 0, tabs = [''B.sol''], isMetaPressed = False, editorRef = None\<rparr> \<and>
   elem_at scenario_files 0 = Some \<lparr>file_path = ''A.sol'', source_code = ''''\<rparr>"
  by (simp add: run_def step_def render_def initial_def scenario_files_def elem_at_def
      handleSelectFile_def handleTabSelect_def handleTabClose_def findIndex_def)

text \<open>
  Claim C2. In a state of the data model (\<open>wf_state\<close>: no path is open twice and every
  tab is a file of \<open>data\<close>, which holds in every state a run reaches, see
  \<open>wf_state_run\<close>) whose active file's tab stands at a position \<open>p > 0\<close>, closing the
  active file's path returns a state; its tab sequence is the old one without position
  \<open>p\<close>, the path is no longer in it, and the new active index points at the file whose
  path stood at position \<open>p - 1\<close> before the removal.
\<close>

theorem closeTab_active_left_neighbour:
  assumes wf: "wf_state data s"
    and active: "elem_at data (index s) = Some f" "file_path f = path"
    and pos: "0 < p" "p < length (tabs s)" "tabs s ! p = path"
  shows "\<exists>s' g. handleTabClose data path s = Inr s' \<and>
           tabs s' = take p (tabs s) @ drop (Suc p) (tabs s) \<and>
           path \<notin> set (tabs s') \<and>
           elem_at data (index s') = Some g \<and> file_path g = tabs s ! (p - 1)"
proof -
  let ?Q = "\<lambda>item. file_path item = tabs s ! (p - 1)"
  from wf have d: "distinct (tabs s)" by (simp add: wf_state_def)
  from pos have len: "1 < length (tabs s)" by simp
  have ti: "findIndex (\<lambda>item. item = path) (tabs s) = int p"
    using findIndex_distinct [OF d pos(2)] pos(3) by simp
  from pos have k: "max 0 (int p - 1) = int (p - 1)" by simp
  from pos have "p - 1 < length (tabs s)" by simp
  then have "elem_at (tabs s) (int (p - 1)) = Some (tabs s ! (p - 1))"
    by (rule elem_at_nat)
  with k have e: "elem_at (tabs s) (max 0 (int p - 1)) = Some (tabs s ! (p - 1))"
    by simp
  from pos have "tabs s ! (p - 1) \<in> set (tabs s)" by simp
  with wf have ex: "list_ex ?Q data"
    by (auto simp: wf_state_def list_all_iff list_ex_iff)
  from findIndex_elem_at [OF ex] obtain g
    where g: "elem_at data (findIndex ?Q data) = Some g" "file_path g = tabs s ! (p - 1)"
    by auto
  have t: "filter (\<lambda>item. item \<noteq> path) (tabs s) = take p (tabs s) @ drop (Suc p) (tabs s)"
    using filter_neq_nth [OF d pos(2)] pos(3) by simp
  have c: "handleTabClose data path s =
             Inr (s\<lparr>index := findIndex ?Q data,
                    tabs := take p (tabs s) @ drop (Suc p) (tabs s)\<rparr>)"
    using len active by (simp add: handleTabClose_def Let_def ti e t)
  have "path \<notin> set (filter (\<lambda>item. item \<noteq> path) (tabs s))" by simp
  with t have "path \<notin> set (take p (tabs s) @ drop (Suc p) (tabs s))" by simp
  with c g show ?thesis by simp
qed

text \<open>
  The theorem at the tabs \<open>[A.sol, B.sol, C.sol]\<close> with \<open>B.sol\<close> active: closing
  \<open>B.sol\<close> makes \<open>A.sol\<close> active.
\<close>

theorem closeTab_active_left_neighbour_witness:
  "wf_state scenario_files
     \<lparr>index = 1, tabs = [''A.sol'', ''B.sol'', ''C.sol''], isMetaPressed = False, editorRef = None\<rparr> \<and>
   elem_at scenario_files 1 = Some \<lparr>file_path = ''B.sol'', source_code = ''''\<rparr> \<and>
   (0::nat) < 1 \<and> 1 < length [''A.sol'', ''B.sol'', ''C.sol''] \<and>
   [''A.sol'', ''B.sol'', ''C.sol''] ! 1 = ''B.sol'' \<and>
   handleTabClose scenario_files ''B.sol''
       \<lparr>index = 1, tabs = [''A.sol'', ''B.sol'', ''C.sol''], isMetaPressed = False, editorRef = None\<rparr>
     = Inr \<lparr>index = 0, tabs = [''A.sol'', ''C.sol''], isMetaPressed = False, editorRef = None\<rparr> \<and>
   elem_at scenario_files 0 = Some \<lparr>file_path = ''A.sol'', source_code = ''''\<rparr>"
  using closeTab_active_left_neighbour [where data = scenario_files
      and s = "\<lparr>index = 1, tabs = [''A.sol'', ''B.sol'', ''C.sol''], isMetaPressed = False, editorRef = None\<rparr>"
      and f = "\<lparr>file_path = ''B.sol'', source_code = ''''\<rparr>" and path = "''B.sol''" and p = 1]
  by (simp add: scenario_files_def elem_at_def wf_state_def handleTabClose_def findIndex_def)

section \<open>Selecting a file\<close>

text \<open>
  Claim C3. For every state and every index \<open>i\<close> inside \<open>data\<close>, \<open>handleSelectFile\<close>
  returns the state with active index \<open>i\<close> whose tab sequence is the old one when the
  path of file \<open>i\<close> is already open, and the old one with that path appended at the end
  otherwise. The old tabs are a prefix of the new ones, so none is removed or moved. A
  second call with the same \<open>i\<close> (and any line number) changes nothing.
\<close>

theorem selectFile_opens_once:
  fixes s :: state
  assumes "0 \<le> i" and "i < int (length data)"
  defines "path \<equiv> file_path (data ! nat i)"
  defines "s' \<equiv> s\<lparr>index := i,
                    tabs := (if path \<in> set (tabs s) then tabs s else tabs s @ [path])\<rparr>"
  shows "snd (handleSelectFile data i lineNumber s) = Inr s' \<and>
         index s' = i \<and>
         take (length (tabs s)) (tabs s') = tabs s \<and>
         snd (handleSelectFile data i lineNumber' s') = Inr s'"
  using assms by (auto simp: handleSelectFile_def elem_at_def list_ex_iff)

text \<open>Opening \<open>B.sol\<close> from the initial state, twice.\<close>

theorem selectFile_opens_once_witness:
  "(0::int) \<le> 1 \<and> 1 < int (length scenario_files) \<and>
   snd (handleSelectFile scenario_files 1 None
          \<lparr>index = 0, tabs = [''A.sol''], isMetaPressed = False, editorRef = None\<rparr>)
     = Inr \<lparr>index = 1, tabs = [''A.sol'', ''B.sol''], isMetaPressed = False, editorRef = None\<rparr> \<and>
   snd (handleSelectFile scenario_files 1 None
          \<lparr>index = 1, tabs = [''A.sol'', ''B.sol''], isMetaPressed = False, editorRef = None\<rparr>)
     = Inr \<lparr>index = 1, tabs = [''A.sol'', ''B.sol''], isMetaPressed = False, editorRef = None\<rparr>"
  using selectFile_opens_once [where i = 1 and data = scenario_files
      and s = "\<lparr>index = 0, tabs = [''A.sol''], isMetaPressed = False, editorRef = None\<rparr>"
      and lineNumber = None and lineNumber' = None]
  by (simp add: scenario_files_def)

text \<open>
  Claim C8, as the specification words it: the scroll is scheduled exactly when
  \<open>lineNumber\<close> is a finite number, and focus is requested on every call. Two calls
  where that fails. The guard of line 81 excludes \<open>undefined\<close> and \<open>NaN\<close> only, so for
  \<open>Infinity\<close>, which is not finite, the scroll is scheduled all the same. And in the
  state at mount the editor has not called \<open>onMount\<close> yet while the side bar is already
  there: selecting \<open>B.sol\<close> then calls no \<open>focus()\<close>.
\<close>

theorem selectFile_infinity_scrolls_unmounted_no_focus:
  "RevealLineInCenter PosInfinity \<in>
     set (fst (handleSelectFile scenario_files 0 (Some PosInfinity)
                 \<lparr>index = 0, tabs = [''A.sol''], isMetaPressed = False, editorRef = None\<rparr>)) \<and>
   \<not> finite_number (Some PosInfinity) \<and>
   initial scenario_files
     = Inr \<lparr>index = 0, tabs = [''A.sol''], isMetaPressed = False, editorRef = None\<rparr> \<and>
   Focus \<notin>
     set (fst (handleSelectFile scenario_files 1 None
                 \<lparr>index = 0, tabs = [''A.sol''], isMetaPressed = False, editorRef = None\<rparr>))"
  by (simp add: handleSelectFile_def finite_number_def initial_def scenario_files_def
      elem_at_def)

text \<open>
  Claim C8, amended. For every call of \<open>handleSelectFile\<close>, the deferred
  scroll-to-centre of line \<open>n\<close> is scheduled if and only if \<open>lineNumber\<close> is the number
  \<open>n\<close> and \<open>n\<close> is not \<open>NaN\<close> (so never for \<open>undefined\<close> or \<open>NaN\<close>, and always for a
  finite or an infinite number); and the editor's \<open>focus()\<close> is called if and only if
  \<open>editorRef.current\<close> holds an editor, whatever \<open>lineNumber\<close> is.
\<close>

theorem selectFile_effects:
  "(RevealLineInCenter n \<in> set (fst (handleSelectFile data idx lineNumber s))
      \<longleftrightarrow> lineNumber = Some n \<and> n \<noteq> NaN) \<and>
   (Focus \<in> set (fst (handleSelectFile data idx lineNumber s))
      \<longleftrightarrow> editorRef s \<noteq> None)"
  by (auto simp: handleSelectFile_def)

text \<open>
  Once the editor has mounted, every call asks for focus: the state after \<open>onMount\<close>,
  with and without a line number.
\<close>

lemma selectFile_focus_after_mount:
  "Focus \<in> set (fst (handleSelectFile data idx lineNumber (handleEditorDidMount ed s)))"
  by (simp add: handleSelectFile_def handleEditorDidMount_def)

section \<open>Closing the only tab, and the state at mount\<close>

text \<open>
  Claim C4. When exactly one tab is open, \<open>handleTabClose\<close> returns the state it was
  given, whatever the path: tabs, active index and the modifier flag are all unchanged,
  and nothing is read from \<open>data\<close>.
\<close>

theorem closeTab_sole_tab:
  assumes "length (tabs s) = 1"
  shows "handleTabClose data path s = Inr s"
  using assms by (simp add: handleTabClose_def)

theorem closeTab_sole_tab_witness:
  "length (tabs \<lparr>index = 0, tabs = [''A.sol''], isMetaPressed = False, editorRef = None\<rparr>) = 1 \<and>
   handleTabClose scenario_files ''A.sol'' \<lparr>index = 0, tabs = [''A.sol''], isMetaPressed = False, editorRef = None\<rparr>
     = Inr \<lparr>index = 0, tabs = [''A.sol''], isMetaPressed = False, editorRef = None\<rparr>"
  using closeTab_sole_tab [of "\<lparr>index = 0, tabs = [''A.sol''], isMetaPressed = False, editorRef = None\<rparr>"
      scenario_files "''A.sol''"]
  by simp

text \<open>
  Claim C5. For every non-empty \<open>data\<close> the component mounts (no \<open>TypeError\<close>) in the
  state whose tab sequence is the single path of the first file and whose active index
  is \<open>0\<close>.
\<close>

theorem mount_state:
  assumes "data \<noteq> []"
  shows "initial data = Inr \<lparr>index = 0, tabs = [file_path (data ! 0)], isMetaPressed = False, editorRef = None\<rparr>"
  using assms by (cases data) (simp_all add: initial_def elem_at_def)

theorem mount_state_witness:
  "scenario_files \<noteq> [] \<and>
   initial scenario_files = Inr \<lparr>index = 0, tabs = [''A.sol''], isMetaPressed = False, editorRef = None\<rparr>"
  using mount_state [of scenario_files] by (simp add: scenario_files_def)

section \<open>Reachable states\<close>

text \<open>
  Claim C6. In every state that a run of events reaches from the state at mount
  (\<open>SelectFile\<close>, \<open>SelectTab\<close> and \<open>CloseTab\<close>, and the clicks, the key events and
  the editor's mount as well), the tab sequence is not empty and holds no path twice, and
  whatever event comes next (its handler alone, or the whole turn with its renders), the
  tabs that are open both before and after it stand in the same order.
\<close>

theorem reachable_tabs_invariant:
  assumes "run g data es = Inr s"
  shows "tabs s \<noteq> [] \<and> distinct (tabs s) \<and>
         (\<forall>e s'. step g data e s = Inr s' \<or> dispatch g data e s = Inr s' \<longrightarrow>
            same_order (tabs s) (tabs s'))"
  using wf_state_run [OF assms] same_order_step same_order_dispatch
  by (auto simp: wf_state_def)

text \<open>
  The scenario of the specification: open \<open>B.sol\<close>, open \<open>C.sol\<close>, close \<open>B.sol\<close>; then
  \<open>B.sol\<close> is opened again and goes to the end.
\<close>

theorem reachable_tabs_invariant_witness:
  "run (\<lambda>base text. None) scenario_files
       [SelectFile 1 None, SelectFile 2 None, CloseTab ''B.sol'']
     = Inr \<lparr>index = 2, tabs = [''A.sol'', ''C.sol''], isMetaPressed = False, editorRef = None\<rparr> \<and>
   [''A.sol'', ''C.sol''] \<noteq> [] \<and> distinct [''A.sol'', ''C.sol''] \<and>
   step (\<lambda>base text. None) scenario_files (SelectFile 1 None)
       \<lparr>index = 2, tabs = [''A.sol'', ''C.sol''], isMetaPressed = False, editorRef = None\<rparr>
     = Inr \<lparr>index = 1, tabs = [''A.sol'', ''C.sol'', ''B.sol''], isMetaPressed = False, editorRef = None\<rparr> \<and>
   same_order [''A.sol'', ''C.sol''] [''A.sol'', ''C.sol'', ''B.sol'']"
proof -
  have r: "run (\<lambda>base text. None) scenario_files
             [SelectFile 1 None, SelectFile 2 None, CloseTab ''B.sol'']
           = Inr \<lparr>index = 2, tabs = [''A.sol'', ''C.sol''], isMetaPressed = False, editorRef = None\<rparr>"
    by (simp add: run_def step_def render_def initial_def scenario_files_def elem_at_def
        handleSelectFile_def handleTabClose_def findIndex_def)
  have st: "step (\<lambda>base text. None) scenario_files (SelectFile 1 None)
              \<lparr>index = 2, tabs = [''A.sol'', ''C.sol''], isMetaPressed = False, editorRef = None\<rparr>
            = Inr \<lparr>index = 1, tabs = [''A.sol'', ''C.sol'', ''B.sol''], isMetaPressed = False, editorRef = None\<rparr>"
    by (simp add: step_def render_def scenario_files_def elem_at_def handleSelectFile_def)
  from reachable_tabs_invariant [OF r]
  have "tabs \<lparr>index = 2, tabs = [''A.sol'', ''C.sol''], isMetaPressed = False, editorRef = None\<rparr> \<noteq> []"
    and "distinct (tabs \<lparr>index = 2, tabs = [''A.sol'', ''C.sol''], isMetaPressed = False, editorRef = None\<rparr>)"
    and "same_order (tabs \<lparr>index = 2, tabs = [''A.sol'', ''C.sol''], isMetaPressed = False, editorRef = None\<rparr>)
           (tabs \<lparr>index = 1, tabs = [''A.sol'', ''C.sol'', ''B.sol''], isMetaPressed = False, editorRef = None\<rparr>)"
    using st by blast+
  with r st show ?thesis by simp
qed

text \<open>
  Claim C10. In every state a run reaches, every open tab is the path of a file of
  \<open>data\<close>. So \<open>handleTabClose\<close> returns a state for every path, with an active index
  inside \<open>data\<close>; and with two or more tabs open, the lookup of the replacement path (the
  \<open>findIndex\<close> of line 103) is never \<open>-1\<close>.
\<close>

theorem reachable_tabs_are_files:
  assumes "run g data es = Inr s"
  shows "(\<forall>p \<in> set (tabs s). \<exists>f \<in> set data. file_path f = p) \<and>
         (\<forall>path. \<exists>s'. handleTabClose data path s = Inr s' \<and>
                    0 \<le> index s' \<and> index s' < int (length data)) \<and>
         (\<forall>path. 1 < length (tabs s) \<longrightarrow>
            findIndex (\<lambda>item. Some (file_path item) =
              elem_at (tabs s) (max 0 (findIndex (\<lambda>item. item = path) (tabs s) - 1))) data
            \<noteq> - 1)"
proof -
  have wf: "wf_state data s" using assms by (rule wf_state_run)
  then have 1: "\<forall>p \<in> set (tabs s). \<exists>f \<in> set data. file_path f = p"
    by (auto simp: wf_state_def list_all_iff list_ex_iff)
  have 2: "\<exists>s'. handleTabClose data path s = Inr s' \<and>
                0 \<le> index s' \<and> index s' < int (length data)" for path
  proof -
    from handleTabClose_total [OF wf] obtain s' where c: "handleTabClose data path s = Inr s'"
      by blast
    from wf_state_tabClose [OF wf c] c show ?thesis by (auto simp: wf_state_def)
  qed
  have 3: "findIndex (\<lambda>item. Some (file_path item) =
              elem_at (tabs s) (max 0 (findIndex (\<lambda>item. item = path) (tabs s) - 1))) data
            \<noteq> - 1" if "1 < length (tabs s)" for path
    using findIndex_some(1) [OF replacement_found [OF wf that, of path]] by simp
  from 1 2 3 show ?thesis by blast
qed

text \<open>All three files open, \<open>C.sol\<close> active and closed: \<open>B.sol\<close> (index \<open>1\<close>) is next.\<close>

theorem reachable_tabs_are_files_witness:
  "run (\<lambda>base text. None) scenario_files [SelectFile 1 None, SelectFile 2 None]
     = Inr \<lparr>index = 2, tabs = [''A.sol'', ''B.sol'', ''C.sol''], isMetaPressed = False, editorRef = None\<rparr> \<and>
   list_all (\<lambda>p. list_ex (\<lambda>f. file_path f = p) scenario_files)
     [''A.sol'', ''B.sol'', ''C.sol''] \<and>
   handleTabClose scenario_files ''C.sol''
       \<lparr>index = 2, tabs = [''A.sol'', ''B.sol'', ''C.sol''], isMetaPressed = False, editorRef = None\<rparr>
     = Inr \<lparr>index = 1, tabs = [''A.sol'', ''B.sol''], isMetaPressed = False, editorRef = None\<rparr>"
proof -
  have r: "run (\<lambda>base text. None) scenario_files [SelectFile 1 None, SelectFile 2 None]
           = Inr \<lparr>index = 2, tabs = [''A.sol'', ''B.sol'', ''C.sol''], isMetaPressed = False, editorRef = None\<rparr>"
    by (simp add: run_def step_def render_def initial_def scenario_files_def elem_at_def handleSelectFile_def)
  from reachable_tabs_are_files [OF r] r show ?thesis
    by (simp add: scenario_files_def elem_at_def handleTabClose_def findIndex_def)
qed

section \<open>Clicks on import references\<close>

text \<open>
  Claim C7. The click is on an import reference, the active index points at a file \<open>f\<close>
  of \<open>data\<close> (the path is resolved against that file's path), and no file of \<open>data\<close>
  has the resolved path. Then, whatever the modifier flag and the device, \<open>handleClick\<close>
  returns the state it was given, without an error, and asks for nothing: no
  \<open>stopPropagation\<close>, no call of \<open>handleSelectFile\<close>.
\<close>

theorem click_unresolved_import:
  assumes "elem_at data (index s) = Some f"
    and "isImportLink ev"
    and "\<not> list_ex (\<lambda>file. Some (file_path file) = g (file_path f) (innerText ev)) data"
  shows "handleClick g isMobile data ev s = ([], Inr s)"
  using assms by (simp add: handleClick_def Let_def findIndex_none)

text \<open>
  A click on \<open>./D.sol\<close> with the modifier held; the resolver of the example drops the
  leading \<open>./\<close>.
\<close>

theorem click_unresolved_import_witness:
  "elem_at scenario_files (index \<lparr>index = 0, tabs = [''A.sol''], isMetaPressed = True, editorRef = None\<rparr>)
     = Some \<lparr>file_path = ''A.sol'', source_code = ''''\<rparr> \<and>
   isImportLink \<lparr>isImportLink = True, innerText = ''./D.sol''\<rparr> \<and>
   \<not> list_ex (\<lambda>file. Some (file_path file) =
        (\<lambda>base text. Some (drop 2 text)) ''A.sol''
          (innerText \<lparr>isImportLink = True, innerText = ''./D.sol''\<rparr>)) scenario_files \<and>
   handleClick (\<lambda>base text. Some (drop 2 text)) False scenario_files
       \<lparr>isImportLink = True, innerText = ''./D.sol''\<rparr>
       \<lparr>index = 0, tabs = [''A.sol''], isMetaPressed = True, editorRef = None\<rparr>
     = ([], Inr \<lparr>index = 0, tabs = [''A.sol''], isMetaPressed = True, editorRef = None\<rparr>)"
  using click_unresolved_import [where data = scenario_files
      and s = "\<lparr>index = 0, tabs = [''A.sol''], isMetaPressed = True, editorRef = None\<rparr>"
      and f = "\<lparr>file_path = ''A.sol'', source_code = ''''\<rparr>"
      and ev = "\<lparr>isImportLink = True, innerText = ''./D.sol''\<rparr>"
      and g = "\<lambda>base text. Some (drop 2 text)" and isMobile = False]
  by (simp add: scenario_files_def elem_at_def)

text \<open>
  Claim C9. Without the modifier flag and off mobile, a click changes nothing and asks
  for nothing, whatever its target. With the flag set or on mobile, a click on an import
  reference whose resolved path is the path of file \<open>i\<close> stops the event and does what
  \<open>handleSelectFile\<close> does for \<open>i\<close>.
\<close>

theorem click_gate:
  "(\<not> isMetaPressed s \<and> \<not> isMobile \<longrightarrow> handleClick g isMobile data ev s = ([], Inr s)) \<and>
   ((isMetaPressed s \<or> isMobile) \<and> isImportLink ev \<and> elem_at data (index s) = Some f \<and>
    findIndex (\<lambda>file. Some (file_path file) = g (file_path f) (innerText ev)) data = i \<and>
    i > - 1 \<longrightarrow>
      handleClick g isMobile data ev s =
        (StopPropagation # fst (handleSelectFile data i None s),
         snd (handleSelectFile data i None s)))"
  by (simp add: handleClick_def Let_def)

text \<open>
  The same click on \<open>./B.sol\<close> three times: on a desktop without the modifier, on mobile
  without it, and on a desktop with it.
\<close>

theorem click_gate_witness:
  "handleClick (\<lambda>base text. Some (drop 2 text)) False scenario_files
       \<lparr>isImportLink = True, innerText = ''./B.sol''\<rparr>
       \<lparr>index = 0, tabs = [''A.sol''], isMetaPressed = False, editorRef = Some StandaloneCodeEditor\<rparr>
     = ([], Inr \<lparr>index = 0, tabs = [''A.sol''], isMetaPressed = False, editorRef = Some StandaloneCodeEditor\<rparr>) \<and>
   handleClick (\<lambda>base text. Some (drop 2 text)) True scenario_files
       \<lparr>isImportLink = True, innerText = ''./B.sol''\<rparr>
       \<lparr>index = 0, tabs = [''A.sol''], isMetaPressed = False, editorRef = Some StandaloneCodeEditor\<rparr>
     = ([StopPropagation, Focus],
        Inr \<lparr>index = 1, tabs = [''A.sol'', ''B.sol''], isMetaPressed = False, editorRef = Some StandaloneCodeEditor\<rparr>) \<and>
   handleClick (\<lambda>base text. Some (drop 2 text)) False scenario_files
       \<lparr>isImportLink = True, innerText = ''./B.sol''\<rparr>
       \<lparr>index = 0, tabs = [''A.sol''], isMetaPressed = True, editorRef = Some StandaloneCodeEditor\<rparr>
     = ([StopPropagation, Focus],
        Inr \<lparr>index = 1, tabs = [''A.sol'', ''B.sol''], isMetaPressed = True, editorRef = Some StandaloneCodeEditor\<rparr>)"
  using click_gate [where g = "\<lambda>base text. Some (drop 2 text)" and isMobile = False
      and data = scenario_files
      and ev = "\<lparr>isImportLink = True, innerText = ''./B.sol''\<rparr>"
      and s = "\<lparr>index = 0, tabs = [''A.sol''], isMetaPressed = False, editorRef = Some StandaloneCodeEditor\<rparr>"
      and f = "\<lparr>file_path = ''A.sol'', source_code = ''''\<rparr>" and i = 1]
    click_gate [where g = "\<lambda>base text. Some (drop 2 text)" and isMobile = True
      and data = scenario_files
      and ev = "\<lparr>isImportLink = True, innerText = ''./B.sol''\<rparr>"
      and s = "\<lparr>index = 0, tabs = [''A.sol''], isMetaPressed = False, editorRef = Some StandaloneCodeEditor\<rparr>"
      and f = "\<lparr>file_path = ''A.sol'', source_code = ''''\<rparr>" and i = 1]
    click_gate [where g = "\<lambda>base text. Some (drop 2 text)" and isMobile = False
      and data = scenario_files
      and ev = "\<lparr>isImportLink = True, innerText = ''./B.sol''\<rparr>"
      and s = "\<lparr>index = 0, tabs = [''A.sol''], isMetaPressed = True, editorRef = Some StandaloneCodeEditor\<rparr>"
      and f = "\<lparr>file_path = ''A.sol'', source_code = ''''\<rparr>" and i = 1]
  by (simp add: scenario_files_def elem_at_def findIndex_def handleSelectFile_def)

end
